theory Spec2Isabelle
  imports Complex_Main
begin

section \<open>Data model (types.ts)\<close>

text \<open>
  The TypeScript interfaces \<open>Product\<close>, \<open>Service\<close> and \<open>ProcessedProduct\<close> become
  records; \<open>ProcessedProduct extends Product\<close> is a record extension. The records take
  the type of the \<open>number\<close> fields as a parameter, because the program is read twice
  below: first with exact rationals (\<^typ>\<open>rat\<close>), where nothing rounds or overflows,
  and then with IEEE binary64 numbers, as JavaScript computes. \<open>Product\<close>, \<open>Service\<close> and
  \<open>ProcessedProduct\<close> are the records over the rationals. A string is a list of
  characters.
\<close>

record 'n ProductOf =
  name :: string
  unitCost :: 'n
  quantity :: 'n
  tariffRate :: string

record 'n ServiceOf =
  providerName :: string
  serviceName :: string
  cost :: 'n
  distributionRule :: string

record 'n ProcessedProductOf = "'n ProductOf" +
  initialCost :: 'n
  costAfterGeneralServices :: 'n
  finalCost :: 'n
  allocatedGeneralCostSum :: 'n
  allocatedSpecificCostSum :: 'n

type_synonym Product = "rat ProductOf"

type_synonym Service = "rat ServiceOf"

type_synonym ProcessedProduct = "rat ProcessedProductOf"

section \<open>String helpers of the JavaScript runtime\<close>

text \<open>
  \<open>String.prototype.toLowerCase\<close>, on the letters A to Z. No character outside
  A to Z is mapped to one of the letters of \<open>comun\<close> by the JavaScript function, so the
  comparison with the literal \<open>'comun'\<close> is the same in the model and in the program.
\<close>

definition toLowerCaseChar :: "char \<Rightarrow> char" where
  "toLowerCaseChar c =
     (case map_of (zip ''ABCDEFGHIJKLMNOPQRSTUVWXYZ'' ''abcdefghijklmnopqrstuvwxyz'') c of
        None \<Rightarrow> c
      | Some l \<Rightarrow> l)"

definition toLowerCase :: "string \<Rightarrow> string" where
  "toLowerCase s = map toLowerCaseChar s"

section \<open>Array helpers of the JavaScript runtime\<close>

text \<open>\<open>xs.reduce((sum, x) => sum + f(x), 0)\<close>: a left fold from 0.\<close>

definition reduce_sum :: "('a \<Rightarrow> rat) \<Rightarrow> 'a list \<Rightarrow> rat" where
  "reduce_sum f xs = foldl (\<lambda>sum x. sum + f x) 0 xs"

text \<open>
  \<open>Array.from(new Set(xs))\<close>: a \<open>Set\<close> keeps its elements in insertion order and
  ignores an element it already holds.
\<close>

definition set_add :: "'a \<Rightarrow> 'a list \<Rightarrow> 'a list" where
  "set_add x acc = (if x \<in> set acc then acc else acc @ [x])"

definition array_from_set :: "'a list \<Rightarrow> 'a list" where
  "array_from_set xs = fold set_add xs []"

text \<open>\<open>xs.findIndex(P)\<close>: the first index whose element satisfies \<open>P\<close>; \<open>None\<close> is \<open>-1\<close>.\<close>

fun findIndex :: "('a \<Rightarrow> bool) \<Rightarrow> 'a list \<Rightarrow> nat option" where
  "findIndex P [] = None"
| "findIndex P (x # xs) = (if P x then Some 0 else map_option Suc (findIndex P xs))"

section \<open>The cost allocator: calculateDistributedCosts\<close>

text \<open>The initial \<open>ProcessedProduct\<close> of a product: \<open>{...p, initialCost: ..., ...}\<close>.\<close>

definition initProcessed :: "Product \<Rightarrow> ProcessedProduct" where
  "initProcessed p =
     \<lparr> name = name p, unitCost = unitCost p, quantity = quantity p, tariffRate = tariffRate p,
       initialCost = unitCost p * quantity p,
       costAfterGeneralServices = unitCost p * quantity p,
       finalCost = unitCost p * quantity p,
       allocatedGeneralCostSum = 0,
       allocatedSpecificCostSum = 0 \<rparr>"

subsection \<open>Step 1: the "comun" services\<close>

definition isComun :: "'n ServiceOf \<Rightarrow> bool" where
  "isComun s = (toLowerCase (distributionRule s) = ''comun'')"

definition comunServices :: "'n ServiceOf list \<Rightarrow> 'n ServiceOf list" where
  "comunServices services = filter isComun services"

definition totalComunServiceCost :: "Service list \<Rightarrow> rat" where
  "totalComunServiceCost services = reduce_sum cost (comunServices services)"

definition totalInitialProductValue :: "ProcessedProduct list \<Rightarrow> rat" where
  "totalInitialProductValue ps = reduce_sum initialCost ps"

definition allocateGeneral :: "rat \<Rightarrow> rat \<Rightarrow> ProcessedProduct \<Rightarrow> ProcessedProduct" where
  "allocateGeneral totalInitial totalComun p =
     (let allocatedGeneralCost = (initialCost p / totalInitial) * totalComun
      in p\<lparr> costAfterGeneralServices := costAfterGeneralServices p + allocatedGeneralCost,
            finalCost := finalCost p + allocatedGeneralCost,
            allocatedGeneralCostSum := allocatedGeneralCostSum p + allocatedGeneralCost \<rparr>)"

definition distributeComun :: "Service list \<Rightarrow> ProcessedProduct list \<Rightarrow> ProcessedProduct list" where
  "distributeComun services ps =
     (let totalComun = totalComunServiceCost services;
          totalInitial = totalInitialProductValue ps
      in if totalComun > 0 \<and> totalInitial > 0
         then map (allocateGeneral totalInitial totalComun) ps
         else ps)"

subsection \<open>Step 2: the services of a specific tariff rule\<close>

definition specificTariffRules :: "'n ServiceOf list \<Rightarrow> string list" where
  "specificTariffRules services =
     array_from_set (map distributionRule (filter (\<lambda>s. \<not> isComun s) services))"

definition servicesForThisRule :: "'n ServiceOf list \<Rightarrow> string \<Rightarrow> 'n ServiceOf list" where
  "servicesForThisRule services specificRule =
     filter (\<lambda>s. distributionRule s = specificRule) services"

definition totalCostForThisRule :: "Service list \<Rightarrow> string \<Rightarrow> rat" where
  "totalCostForThisRule services specificRule =
     reduce_sum cost (servicesForThisRule services specificRule)"

definition matchingProducts ::
  "string \<Rightarrow> 'n ProcessedProductOf list \<Rightarrow> 'n ProcessedProductOf list" where
  "matchingProducts specificRule ps = filter (\<lambda>p. tariffRate p = specificRule) ps"

definition totalBaseCost :: "string \<Rightarrow> ProcessedProduct list \<Rightarrow> rat" where
  "totalBaseCost specificRule ps =
     reduce_sum costAfterGeneralServices (matchingProducts specificRule ps)"

text \<open>The predicate of the \<open>findIndex\<close> call that looks a matching product up again.\<close>

definition sameProduct :: "ProcessedProduct \<Rightarrow> ProcessedProduct \<Rightarrow> bool" where
  "sameProduct mp p =
     (name p = name mp \<and> tariffRate p = tariffRate mp \<and>
      unitCost p = unitCost mp \<and> quantity p = quantity mp)"

text \<open>
  The body of \<open>matchingProducts.forEach\<close>: the array is the state, updated at the index
  that \<open>findIndex\<close> returns. The elements of \<open>matchingProducts\<close> are the very objects of the
  array, but the loop writes only \<open>finalCost\<close> and \<open>allocatedSpecificCostSum\<close> and reads
  neither from \<open>mp\<close>, so the values of \<open>mp\<close> taken before the loop are the ones it reads.
\<close>

definition allocateSpecific ::
  "rat \<Rightarrow> rat \<Rightarrow> ProcessedProduct \<Rightarrow> ProcessedProduct list \<Rightarrow> ProcessedProduct list" where
  "allocateSpecific totalCost totalBase mp ps =
     (case findIndex (sameProduct mp) ps of
        None \<Rightarrow> ps
      | Some productIndex \<Rightarrow>
          (let allocatedSpecificCost = (costAfterGeneralServices mp / totalBase) * totalCost;
               q = ps ! productIndex
           in ps[productIndex :=
                q\<lparr> finalCost := finalCost q + allocatedSpecificCost,
                   allocatedSpecificCostSum :=
                     allocatedSpecificCostSum q + allocatedSpecificCost \<rparr>]))"

text \<open>
  The body of \<open>specificTariffRules.forEach\<close>. The first branch is the early return after
  \<open>console.warn\<close>; the warning does not change the array.
\<close>

definition distributeRule ::
  "Service list \<Rightarrow> string \<Rightarrow> ProcessedProduct list \<Rightarrow> ProcessedProduct list" where
  "distributeRule services specificRule ps =
     (let totalCost = totalCostForThisRule services specificRule;
          matching = matchingProducts specificRule ps
      in if length matching = 0 then ps
         else
           (let totalBase = totalBaseCost specificRule ps
            in if totalCost > 0 \<and> totalBase > 0
               then fold (allocateSpecific totalCost totalBase) matching ps
               else ps))"

definition calculateDistributedCosts :: "Product list \<Rightarrow> Service list \<Rightarrow> ProcessedProduct list" where
  "calculateDistributedCosts products services =
     fold (distributeRule services) (specificTariffRules services)
       (distributeComun services (map initProcessed products))"

section \<open>The file parsers: parseProductsFile and parseServicesFile\<close>

text \<open>
  The file texts are ASCII. \<open>s.split(sep)\<close> for a separator of one character: the pieces
  between the separators, so a text with \<open>n\<close> separators has \<open>n + 1\<close> pieces and the empty
  text has the one piece \<open>''\<close>. The second argument is the piece read so far.
\<close>

fun split_from :: "char \<Rightarrow> string \<Rightarrow> string \<Rightarrow> string list" where
  "split_from sep piece [] = [piece]"
| "split_from sep piece (c # cs) =
     (if c = sep then piece # split_from sep [] cs else split_from sep (piece @ [c]) cs)"

definition split_str :: "char \<Rightarrow> string \<Rightarrow> string list" where
  "split_str sep s = split_from sep [] s"

text \<open>\<open>s.trim()\<close>: the white space of ASCII (space, tab, line feed, vertical tab, form
  feed, carriage return) is removed at both ends.\<close>

definition isWhiteSpace :: "char \<Rightarrow> bool" where
  "isWhiteSpace c \<longleftrightarrow>
     c \<in> set [CHR '' '', CHR 0x09, CHR 0x0A, CHR 0x0B, CHR 0x0C, CHR 0x0D]"

definition trim :: "string \<Rightarrow> string" where
  "trim s = rev (dropWhile isWhiteSpace (rev (dropWhile isWhiteSpace s)))"

text \<open>
  Each \<open>throw new Error(...)\<close> of the parsers is a constructor. The number is the one the
  message prints after \<open>l\'inea\<close>; the string is the text the message quotes.
\<close>

datatype parse_error =
    ProductFieldCount nat string
  | InvalidUnitCost nat string
  | InvalidQuantity nat string
  | EmptyProductName nat
  | EmptyTariffRate nat
  | ServiceFieldCount nat string
  | InvalidServiceCost nat string
  | EmptyProviderName nat
  | EmptyServiceName nat
  | EmptyDistributionRule nat

text \<open>The number a parse error reports as the line.\<close>

fun reportedLine :: "parse_error \<Rightarrow> nat" where
  "reportedLine (ProductFieldCount n l) = n"
| "reportedLine (InvalidUnitCost n v) = n"
| "reportedLine (InvalidQuantity n v) = n"
| "reportedLine (EmptyProductName n) = n"
| "reportedLine (EmptyTariffRate n) = n"
| "reportedLine (ServiceFieldCount n l) = n"
| "reportedLine (InvalidServiceCost n v) = n"
| "reportedLine (EmptyProviderName n) = n"
| "reportedLine (EmptyServiceName n) = n"
| "reportedLine (EmptyDistributionRule n) = n"

text \<open>\<open>content.split('\n').filter(line => line.trim() !== '')\<close>\<close>

definition nonBlankLines :: "string \<Rightarrow> string list" where
  "nonBlankLines content = filter (\<lambda>line. trim line \<noteq> []) (split_str (CHR 0x0A) content)"

text \<open>
  \<open>lines.map((line, index) => ...)\<close> with a callback that may throw: the callback runs on
  the lines in order, and the first error ends the whole call, so no list is returned.
\<close>

fun mapLines ::
  "(string \<Rightarrow> nat \<Rightarrow> parse_error + 'a) \<Rightarrow> nat \<Rightarrow> string list \<Rightarrow> parse_error + 'a list" where
  "mapLines f index [] = Inr []"
| "mapLines f index (line # lines) =
     (case f line index of
        Inl e \<Rightarrow> Inl e
      | Inr x \<Rightarrow>
          (case mapLines f (index + 1) lines of
             Inl e \<Rightarrow> Inl e
           | Inr xs \<Rightarrow> Inr (x # xs)))"

text \<open>
  \<open>parseFloat\<close> and \<open>parseInt(_, 10)\<close> are functions of the JavaScript runtime; the parsers
  take them as parameters, with \<open>None\<close> for \<open>NaN\<close>.
\<close>

definition parseProductLine ::
  "(string \<Rightarrow> rat option) \<Rightarrow> (string \<Rightarrow> int option) \<Rightarrow> string \<Rightarrow> nat \<Rightarrow> parse_error + Product" where
  "parseProductLine parseFloat parseInt line index =
     (let parts = split_str (CHR '','') line
      in if length parts \<noteq> 4 then Inl (ProductFieldCount (index + 1) line)
         else
           (let name' = trim (parts ! 0);
                unitCostStr = trim (parts ! 1);
                quantityStr = trim (parts ! 2);
                tariffRate' = trim (parts ! 3)
            in case parseFloat unitCostStr of
                 None \<Rightarrow> Inl (InvalidUnitCost (index + 1) unitCostStr)
               | Some unitCost' \<Rightarrow>
                   if unitCost' < 0 then Inl (InvalidUnitCost (index + 1) unitCostStr)
                   else
                     (case parseInt quantityStr of
                        None \<Rightarrow> Inl (InvalidQuantity (index + 1) quantityStr)
                      | Some quantity' \<Rightarrow>
                          if quantity' < 0 then Inl (InvalidQuantity (index + 1) quantityStr)
                          else if name' = [] then Inl (EmptyProductName (index + 1))
                          else if tariffRate' = [] then Inl (EmptyTariffRate (index + 1))
                          else Inr \<lparr> name = name', unitCost = unitCost',
                                     quantity = of_int quantity', tariffRate = tariffRate' \<rparr>)))"

definition parseProductsFile ::
  "(string \<Rightarrow> rat option) \<Rightarrow> (string \<Rightarrow> int option) \<Rightarrow> string \<Rightarrow> parse_error + Product list" where
  "parseProductsFile parseFloat parseInt content =
     mapLines (parseProductLine parseFloat parseInt) 0 (nonBlankLines content)"

definition parseServiceLine ::
  "(string \<Rightarrow> rat option) \<Rightarrow> string \<Rightarrow> nat \<Rightarrow> parse_error + Service" where
  "parseServiceLine parseFloat line index =
     (let parts = split_str (CHR '','') line
      in if length parts \<noteq> 4 then Inl (ServiceFieldCount (index + 1) line)
         else
           (let providerName' = trim (parts ! 0);
                serviceName' = trim (parts ! 1);
                costStr = trim (parts ! 2);
                distributionRule' = trim (parts ! 3)
            in case parseFloat costStr of
                 None \<Rightarrow> Inl (InvalidServiceCost (index + 1) costStr)
               | Some cost' \<Rightarrow>
                   if cost' < 0 then Inl (InvalidServiceCost (index + 1) costStr)
                   else if providerName' = [] then Inl (EmptyProviderName (index + 1))
                   else if serviceName' = [] then Inl (EmptyServiceName (index + 1))
                   else if distributionRule' = [] then Inl (EmptyDistributionRule (index + 1))
                   else Inr \<lparr> providerName = providerName', serviceName = serviceName',
                              cost = cost', distributionRule = distributionRule' \<rparr>))"

definition parseServicesFile ::
  "(string \<Rightarrow> rat option) \<Rightarrow> string \<Rightarrow> parse_error + Service list" where
  "parseServicesFile parseFloat content =
     mapLines (parseServiceLine parseFloat) 0 (nonBlankLines content)"

section \<open>IEEE binary64 numbers\<close>

text \<open>
  A JavaScript \<open>number\<close> is an IEEE 754 binary64 value: \<open>NaN\<close>, one of the two infinities,
  or a finite value, given here by the real number it stands for. The sign of a zero is not
  kept: \<open>===\<close> and \<open>>\<close> do not see it, and the allocator divides only by totals that it
  has tested to be \<open>> 0\<close>.
\<close>

datatype double = NaN | PosInf | NegInf | Finite real

text \<open>The number of binary digits of a positive integer.\<close>

function bits :: "int \<Rightarrow> int" where
  "bits n = (if n \<le> 0 then 0 else 1 + bits (n div 2))"
  by pat_completeness auto
termination
  by (relation "measure nat") auto

declare bits.simps [simp del]

text \<open>\<open>pow2 k\<close> is \<open>2\<close> to the power \<open>k\<close>, for a negative \<open>k\<close> too.\<close>

definition pow2 :: "int \<Rightarrow> real" where
  "pow2 k = (if 0 \<le> k then 2 ^ nat k else 1 / 2 ^ nat (- k))"

text \<open>
  For \<open>x > 0\<close>, \<open>floor_log2 x\<close> is the exponent \<open>e\<close> with \<open>2^e \<le> x < 2^(e + 1)\<close>: for
  \<open>x \<ge> 1\<close> from the digits of the integer part, for \<open>x < 1\<close> from the least power of two
  that is not below \<open>1 / x\<close>.
\<close>

definition floor_log2 :: "real \<Rightarrow> int" where
  "floor_log2 x = (if 1 \<le> x then bits \<lfloor>x\<rfloor> - 1 else - bits (\<lceil>1 / x\<rceil> - 1))"

text \<open>Rounding to the nearest integer, a tie to the even one.\<close>

definition round_half_even :: "real \<Rightarrow> int" where
  "round_half_even r =
     (if r - of_int \<lfloor>r\<rfloor> < 1 / 2 then \<lfloor>r\<rfloor>
      else if 1 / 2 < r - of_int \<lfloor>r\<rfloor> then \<lfloor>r\<rfloor> + 1
      else if even \<lfloor>r\<rfloor> then \<lfloor>r\<rfloor> else \<lfloor>r\<rfloor> + 1)"

text \<open>
  A binary64 value has 53 significant binary digits and no digit below \<open>2^-1074\<close>. So the
  values near \<open>a > 0\<close> are the multiples of \<open>2^q\<close>, where \<open>q\<close> is \<open>floor_log2 a - 52\<close> but not
  below \<open>-1074\<close>. \<open>round_magnitude a\<close> is the multiple nearest to \<open>a\<close> (ties to even), and
  \<open>round64\<close> is the rounding of every arithmetic operation: a result that rounds to
  \<open>2^1024\<close> or more is an infinity.
\<close>

definition ulp_exponent :: "real \<Rightarrow> int" where
  "ulp_exponent a = max (floor_log2 a - 52) (- 1074)"

definition round_magnitude :: "real \<Rightarrow> real" where
  "round_magnitude a =
     of_int (round_half_even (a / pow2 (ulp_exponent a))) * pow2 (ulp_exponent a)"

definition round64 :: "real \<Rightarrow> double" where
  "round64 x =
     (if x = 0 then Finite 0
      else if pow2 1024 \<le> round_magnitude \<bar>x\<bar> then (if 0 < x then PosInf else NegInf)
      else Finite (if 0 < x then round_magnitude \<bar>x\<bar> else - round_magnitude \<bar>x\<bar>))"

text \<open>
  The operators \<open>+\<close>, \<open>*\<close>, \<open>/\<close>, \<open><\<close>, \<open><=\<close> and \<open>===\<close> on numbers. An operation with a
  \<open>NaN\<close> is \<open>NaN\<close>, and so are \<open>\<infinity> - \<infinity>\<close>, \<open>0 * \<infinity>\<close>, \<open>\<infinity> / \<infinity>\<close> and \<open>0 / 0\<close>; every comparison
  with a \<open>NaN\<close> is false. Otherwise the exact result is rounded.
\<close>

fun add64 :: "double \<Rightarrow> double \<Rightarrow> double" where
  "add64 NaN y = NaN"
| "add64 x NaN = NaN"
| "add64 PosInf NegInf = NaN"
| "add64 NegInf PosInf = NaN"
| "add64 PosInf y = PosInf"
| "add64 x PosInf = PosInf"
| "add64 NegInf y = NegInf"
| "add64 x NegInf = NegInf"
| "add64 (Finite a) (Finite b) = round64 (a + b)"

fun mul64 :: "double \<Rightarrow> double \<Rightarrow> double" where
  "mul64 NaN y = NaN"
| "mul64 x NaN = NaN"
| "mul64 (Finite a) (Finite b) = round64 (a * b)"
| "mul64 (Finite a) y = (if a = 0 then NaN else if (0 < a) = (y = PosInf) then PosInf else NegInf)"
| "mul64 x (Finite b) = (if b = 0 then NaN else if (0 < b) = (x = PosInf) then PosInf else NegInf)"
| "mul64 x y = (if x = y then PosInf else NegInf)"

fun div64 :: "double \<Rightarrow> double \<Rightarrow> double" where
  "div64 NaN y = NaN"
| "div64 x NaN = NaN"
| "div64 (Finite a) (Finite b) =
     (if b = 0 then (if a = 0 then NaN else if 0 < a then PosInf else NegInf)
      else round64 (a / b))"
| "div64 (Finite a) y = Finite 0"
| "div64 x (Finite b) = (if (0 \<le> b) = (x = PosInf) then PosInf else NegInf)"
| "div64 x y = NaN"

fun less64 :: "double \<Rightarrow> double \<Rightarrow> bool" where
  "less64 NaN y = False"
| "less64 x NaN = False"
| "less64 PosInf y = False"
| "less64 x NegInf = False"
| "less64 NegInf y = True"
| "less64 x PosInf = True"
| "less64 (Finite a) (Finite b) = (a < b)"

fun less_eq64 :: "double \<Rightarrow> double \<Rightarrow> bool" where
  "less_eq64 NaN y = False"
| "less_eq64 x NaN = False"
| "less_eq64 NegInf y = True"
| "less_eq64 x PosInf = True"
| "less_eq64 PosInf y = False"
| "less_eq64 x NegInf = False"
| "less_eq64 (Finite a) (Finite b) = (a \<le> b)"

fun strict_eq64 :: "double \<Rightarrow> double \<Rightarrow> bool" where
  "strict_eq64 NaN y = False"
| "strict_eq64 x NaN = False"
| "strict_eq64 x y = (x = y)"

section \<open>The cost allocator over binary64 numbers\<close>

text \<open>
  The same code once more, with every arithmetic operation and comparison of numbers taken
  in binary64. The functions that touch no number (\<open>isComun\<close>, \<open>comunServices\<close>,
  \<open>specificTariffRules\<close>, \<open>servicesForThisRule\<close>, \<open>matchingProducts\<close>, \<open>findIndex\<close>) are
  the ones above.
\<close>

type_synonym Product64 = "double ProductOf"

type_synonym Service64 = "double ServiceOf"

type_synonym ProcessedProduct64 = "double ProcessedProductOf"

definition reduce_sum64 :: "('a \<Rightarrow> double) \<Rightarrow> 'a list \<Rightarrow> double" where
  "reduce_sum64 f xs = foldl (\<lambda>sum x. add64 sum (f x)) (Finite 0) xs"

definition initProcessed64 :: "Product64 \<Rightarrow> ProcessedProduct64" where
  "initProcessed64 p =
     \<lparr> name = name p, unitCost = unitCost p, quantity = quantity p, tariffRate = tariffRate p,
       initialCost = mul64 (unitCost p) (quantity p),
       costAfterGeneralServices = mul64 (unitCost p) (quantity p),
       finalCost = mul64 (unitCost p) (quantity p),
       allocatedGeneralCostSum = Finite 0,
       allocatedSpecificCostSum = Finite 0 \<rparr>"

definition totalComunServiceCost64 :: "Service64 list \<Rightarrow> double" where
  "totalComunServiceCost64 services = reduce_sum64 cost (comunServices services)"

definition totalInitialProductValue64 :: "ProcessedProduct64 list \<Rightarrow> double" where
  "totalInitialProductValue64 ps = reduce_sum64 initialCost ps"

definition allocateGeneral64 ::
  "double \<Rightarrow> double \<Rightarrow> ProcessedProduct64 \<Rightarrow> ProcessedProduct64" where
  "allocateGeneral64 totalInitial totalComun p =
     (let allocatedGeneralCost = mul64 (div64 (initialCost p) totalInitial) totalComun
      in p\<lparr> costAfterGeneralServices := add64 (costAfterGeneralServices p) allocatedGeneralCost,
            finalCost := add64 (finalCost p) allocatedGeneralCost,
            allocatedGeneralCostSum := add64 (allocatedGeneralCostSum p) allocatedGeneralCost \<rparr>)"

definition distributeComun64 ::
  "Service64 list \<Rightarrow> ProcessedProduct64 list \<Rightarrow> ProcessedProduct64 list" where
  "distributeComun64 services ps =
     (let totalComun = totalComunServiceCost64 services;
          totalInitial = totalInitialProductValue64 ps
      in if less64 (Finite 0) totalComun \<and> less64 (Finite 0) totalInitial
         then map (allocateGeneral64 totalInitial totalComun) ps
         else ps)"

definition totalCostForThisRule64 :: "Service64 list \<Rightarrow> string \<Rightarrow> double" where
  "totalCostForThisRule64 services specificRule =
     reduce_sum64 cost (servicesForThisRule services specificRule)"

definition totalBaseCost64 :: "string \<Rightarrow> ProcessedProduct64 list \<Rightarrow> double" where
  "totalBaseCost64 specificRule ps =
     reduce_sum64 costAfterGeneralServices (matchingProducts specificRule ps)"

definition sameProduct64 :: "ProcessedProduct64 \<Rightarrow> ProcessedProduct64 \<Rightarrow> bool" where
  "sameProduct64 mp p =
     (name p = name mp \<and> tariffRate p = tariffRate mp \<and>
      strict_eq64 (unitCost p) (unitCost mp) \<and> strict_eq64 (quantity p) (quantity mp))"

definition allocateSpecific64 ::
  "double \<Rightarrow> double \<Rightarrow> ProcessedProduct64 \<Rightarrow> ProcessedProduct64 list \<Rightarrow>
   ProcessedProduct64 list" where
  "allocateSpecific64 totalCost totalBase mp ps =
     (case findIndex (sameProduct64 mp) ps of
        None \<Rightarrow> ps
      | Some productIndex \<Rightarrow>
          (let allocatedSpecificCost =
                 mul64 (div64 (costAfterGeneralServices mp) totalBase) totalCost;
               q = ps ! productIndex
           in ps[productIndex :=
                q\<lparr> finalCost := add64 (finalCost q) allocatedSpecificCost,
                   allocatedSpecificCostSum :=
                     add64 (allocatedSpecificCostSum q) allocatedSpecificCost \<rparr>]))"

definition distributeRule64 ::
  "Service64 list \<Rightarrow> string \<Rightarrow> ProcessedProduct64 list \<Rightarrow> ProcessedProduct64 list" where
  "distributeRule64 services specificRule ps =
     (let totalCost = totalCostForThisRule64 services specificRule;
          matching = matchingProducts specificRule ps
      in if length matching = 0 then ps
         else
           (let totalBase = totalBaseCost64 specificRule ps
            in if less64 (Finite 0) totalCost \<and> less64 (Finite 0) totalBase
               then fold (allocateSpecific64 totalCost totalBase) matching ps
               else ps))"

definition calculateDistributedCosts64 ::
  "Product64 list \<Rightarrow> Service64 list \<Rightarrow> ProcessedProduct64 list" where
  "calculateDistributedCosts64 products services =
     fold (distributeRule64 services) (specificTariffRules services)
       (distributeComun64 services (map initProcessed64 products))"

section \<open>Notions used in the proofs\<close>

text \<open>
  Step 2 writes only \<open>finalCost\<close> and \<open>allocatedSpecificCostSum\<close>. The frame of a
  processed product is the product with these two fields cleared: what step 2 leaves alone.
\<close>

definition frame :: "ProcessedProduct \<Rightarrow> ProcessedProduct" where
  "frame p = p\<lparr> finalCost := 0, allocatedSpecificCostSum := 0 \<rparr>"



text \<open>The specific cost held by the products of a tariff rule.\<close>

definition allocatedToRule :: "string \<Rightarrow> ProcessedProduct list \<Rightarrow> rat" where
  "allocatedToRule r ps = sum_list (map allocatedSpecificCostSum (matchingProducts r ps))"


text \<open>
  The input product inside a processed product, and a processed product after one more
  specific allocation \<open>a\<close>.
\<close>

definition inputOf :: "ProcessedProduct \<Rightarrow> Product" where
  "inputOf p =
     \<lparr> name = name p, unitCost = unitCost p, quantity = quantity p, tariffRate = tariffRate p \<rparr>"

definition addSpecific :: "rat \<Rightarrow> ProcessedProduct \<Rightarrow> ProcessedProduct" where
  "addSpecific a p =
     p\<lparr> finalCost := finalCost p + a, allocatedSpecificCostSum := allocatedSpecificCostSum p + a \<rparr>"

subsection \<open>Sample inputs\<close>

abbreviation productA :: Product where
  "productA \<equiv> \<lparr> name = ''A'', unitCost = 10, quantity = 10, tariffRate = ''T1'' \<rparr>"

abbreviation productB :: Product where
  "productB \<equiv> \<lparr> name = ''B'', unitCost = 20, quantity = 15, tariffRate = ''T2'' \<rparr>"


abbreviation freight :: Service where
  "freight \<equiv>
     \<lparr> providerName = ''P1'', serviceName = ''Freight'', cost = 40, distributionRule = ''comun'' \<rparr>"


abbreviation taxT1 :: Service where
  "taxT1 \<equiv>
     \<lparr> providerName = ''X'', serviceName = ''Tax'', cost = 30, distributionRule = ''T1'' \<rparr>"

abbreviation feeT9 :: Service where
  "feeT9 \<equiv>
     \<lparr> providerName = ''Y'', serviceName = ''Fee'', cost = 40, distributionRule = ''T9'' \<rparr>"

text \<open>Sample inputs in binary64; every number given is a binary64 value.\<close>

abbreviation productBig :: Product64 where
  "productBig \<equiv>
     \<lparr> name = ''A'', unitCost = Finite (2 ^ 53), quantity = Finite 1, tariffRate = ''T1'' \<rparr>"

abbreviation productHuge :: Product64 where
  "productHuge \<equiv>
     \<lparr> name = ''A'', unitCost = Finite (2 ^ 1023), quantity = Finite 2, tariffRate = ''T1'' \<rparr>"

abbreviation taxTwo :: Service64 where
  "taxTwo \<equiv>
     \<lparr> providerName = ''X'', serviceName = ''Tax'', cost = Finite 2, distributionRule = ''T1'' \<rparr>"

abbreviation freightOne :: Service64 where
  "freightOne \<equiv>
     \<lparr> providerName = ''P'', serviceName = ''F'', cost = Finite 1, distributionRule = ''comun'' \<rparr>"

abbreviation productFour :: Product64 where
  "productFour \<equiv>
     \<lparr> name = ''C'', unitCost = Finite 5, quantity = Finite 4, tariffRate = ''T1'' \<rparr>"

abbreviation productTen :: Product64 where
  "productTen \<equiv>
     \<lparr> name = ''A'', unitCost = Finite 5, quantity = Finite 10, tariffRate = ''T1'' \<rparr>"

abbreviation freightForty :: Service64 where
  "freightForty \<equiv>
     \<lparr> providerName = ''P1'', serviceName = ''Freight'', cost = Finite 40,
       distributionRule = ''comun'' \<rparr>"

abbreviation insuranceUpper :: Service64 where
  "insuranceUpper \<equiv>
     \<lparr> providerName = ''P2'', serviceName = ''Insurance'', cost = Finite 21,
       distributionRule = ''COMUN'' \<rparr>"

abbreviation taxThirty :: Service64 where
  "taxThirty \<equiv>
     \<lparr> providerName = ''X'', serviceName = ''Tax'', cost = Finite 30, distributionRule = ''T1'' \<rparr>"

section \<open>The helpers of the runtime\<close>

lemma foldl_add_sum_list:
  "foldl (\<lambda>sum x. sum + f x) a xs = a + sum_list (map f xs)"
  by (induction xs arbitrary: a) (simp_all add: add.assoc)

lemma reduce_sum_sum_list: "reduce_sum f xs = sum_list (map f xs)"
  by (simp add: reduce_sum_def foldl_add_sum_list)


lemma distinct_fold_set_add: "distinct acc \<Longrightarrow> distinct (fold set_add xs acc)"
  by (induction xs arbitrary: acc) (auto simp: set_add_def)

lemma filter_fold_set_add:
  "filter P (fold set_add xs acc) = fold set_add (filter P xs) (filter P acc)"
  by (induction xs arbitrary: acc) (auto simp: set_add_def)


lemma distinct_array_from_set: "distinct (array_from_set xs)"
  by (simp add: array_from_set_def distinct_fold_set_add)

lemma filter_array_from_set: "filter P (array_from_set xs) = array_from_set (filter P xs)"
  by (simp add: array_from_set_def filter_fold_set_add)

lemma findIndex_Some: "findIndex P xs = Some i \<Longrightarrow> i < length xs \<and> P (xs ! i)"
  by (induction xs arbitrary: i) (auto split: if_splits)

lemma findIndex_None: "findIndex P xs = None \<longleftrightarrow> (\<forall>x \<in> set xs. \<not> P x)"
  by (induction xs) auto


section \<open>What step 2 leaves alone\<close>

lemma frame_fields [simp]:
  "name (frame p) = name p" "tariffRate (frame p) = tariffRate p"
  "unitCost (frame p) = unitCost p" "quantity (frame p) = quantity p"
  "initialCost (frame p) = initialCost p"
  "costAfterGeneralServices (frame p) = costAfterGeneralServices p"
  "allocatedGeneralCostSum (frame p) = allocatedGeneralCostSum p"
  by (simp_all add: frame_def)

lemma frame_update [simp]:
  "frame (q\<lparr> finalCost := a, allocatedSpecificCostSum := b \<rparr>) = frame q"
  by (simp add: frame_def)

lemma map_frame_allocateSpecific:
  "map frame (allocateSpecific t b mp ps) = map frame ps"
proof (cases "findIndex (sameProduct mp) ps")
  case None
  then show ?thesis by (simp add: allocateSpecific_def)
next
  case (Some i)
  then have "i < length ps" by (simp add: findIndex_Some)
  then show ?thesis
    using Some by (simp add: allocateSpecific_def Let_def map_update list_update_same_conv)
qed

lemma map_frame_fold_allocateSpecific:
  "map frame (fold (allocateSpecific t b) ms ps) = map frame ps"
  by (induction ms arbitrary: ps) (simp_all add: map_frame_allocateSpecific)

lemma map_frame_distributeRule:
  "map frame (distributeRule services r ps) = map frame ps"
  by (simp add: distributeRule_def Let_def map_frame_fold_allocateSpecific)

lemma map_frame_fold_distributeRule:
  "map frame (fold (distributeRule services) rs ps) = map frame ps"
  by (induction rs arbitrary: ps) (simp_all add: map_frame_distributeRule)

lemma map_frame_cong:
  assumes "map frame ps' = map frame ps" and "\<And>p. f p = g (frame p)"
  shows "map f ps' = map f ps"
proof -
  have "map f ps' = map g (map frame ps')" using assms(2) by simp
  also have "\<dots> = map g (map frame ps)" using assms(1) by simp
  also have "\<dots> = map f ps" using assms(2) by simp
  finally show ?thesis .
qed

lemma matchingProducts_frame:
  "map frame (matchingProducts r ps) = filter (\<lambda>p. tariffRate p = r) (map frame ps)"
  by (simp add: matchingProducts_def filter_map comp_def)

lemma totalBaseCost_frame:
  "totalBaseCost r ps =
     sum_list (map costAfterGeneralServices (filter (\<lambda>p. tariffRate p = r) (map frame ps)))"
proof -
  have "map costAfterGeneralServices (matchingProducts r ps) =
        map costAfterGeneralServices (map frame (matchingProducts r ps))"
    by simp
  then show ?thesis
    by (simp only: totalBaseCost_def reduce_sum_sum_list matchingProducts_frame)
qed

lemma totalBaseCost_cong:
  "map frame ps' = map frame ps \<Longrightarrow> totalBaseCost r ps' = totalBaseCost r ps"
  by (simp add: totalBaseCost_frame)

subsection \<open>Pointwise invariants\<close>









subsection \<open>Costs only grow\<close>







lemma map_frame_calculateDistributedCosts:
  "map frame (calculateDistributedCosts products services) =
   map frame (distributeComun services (map initProcessed products))"
  by (simp add: calculateDistributedCosts_def map_frame_fold_distributeRule)

lemma frame_determined:
  assumes "map frame ps' = map frame ps" and "\<forall>q \<in> set ps. R (frame q)"
  shows "\<forall>p \<in> set ps'. R (frame p)"
proof
  fix p assume "p \<in> set ps'"
  then have "frame p \<in> set (map frame ps)" using assms(1) [symmetric] by simp
  then show "R (frame p)" using assms(2) by auto
qed

lemma sum_list_shares:
  fixes T G :: rat
  shows "sum_list (map (\<lambda>p. (f p / T) * G) ps) = (sum_list (map f ps) / T) * G"
  by (induction ps) (simp_all add: add_divide_distrib distrib_right)

lemma totalInitialProductValue_init:
  "totalInitialProductValue (map initProcessed products) =
   sum_list (map (\<lambda>p. unitCost p * quantity p) products)"
  by (simp add: totalInitialProductValue_def reduce_sum_sum_list initProcessed_def comp_def)

lemma distributeComun_positive:
  assumes "0 < totalComunServiceCost services"
    and "0 < totalInitialProductValue (map initProcessed products)"
  shows "distributeComun services (map initProcessed products) =
         map (\<lambda>p. allocateGeneral (totalInitialProductValue (map initProcessed products))
                    (totalComunServiceCost services) (initProcessed p)) products"
  using assms by (simp add: distributeComun_def Let_def)

section \<open>The cost of a rule goes to the products of the rule\<close>

lemma matchingProducts_update_other:
  assumes "tariffRate (ps ! i) \<noteq> r" and "tariffRate q = tariffRate (ps ! i)"
  shows "matchingProducts r (ps[i := q]) = matchingProducts r ps"
  using assms
proof (induction ps arbitrary: i)
  case Nil
  then show ?case by simp
next
  case (Cons p ps)
  then show ?case by (cases i) (simp_all add: matchingProducts_def)
qed

lemma allocatedToRule_update:
  assumes "i < length ps" and "tariffRate (ps ! i) = r" and "tariffRate q = r"
    and "allocatedSpecificCostSum q = allocatedSpecificCostSum (ps ! i) + a"
  shows "allocatedToRule r (ps[i := q]) = allocatedToRule r ps + a"
  using assms
proof (induction ps arbitrary: i)
  case Nil
  then show ?case by simp
next
  case (Cons p ps)
  show ?case
  proof (cases i)
    case 0
    then show ?thesis using Cons.prems by (simp add: allocatedToRule_def matchingProducts_def)
  next
    case (Suc j)
    then have "allocatedToRule r (ps[j := q]) = allocatedToRule r ps + a"
      using Cons.prems by (intro Cons.IH) simp_all
    then show ?thesis using Suc by (simp add: allocatedToRule_def matchingProducts_def)
  qed
qed

lemma findIndex_sameProduct:
  assumes "findIndex (sameProduct mp) ps = Some i"
  shows "i < length ps" and "tariffRate (ps ! i) = tariffRate mp"
  using findIndex_Some [OF assms] by (simp_all add: sameProduct_def)

lemma matchingProducts_allocateSpecific_other:
  assumes "tariffRate mp \<noteq> r"
  shows "matchingProducts r (allocateSpecific t b mp ps) = matchingProducts r ps"
proof (cases "findIndex (sameProduct mp) ps")
  case None
  then show ?thesis by (simp add: allocateSpecific_def)
next
  case (Some i)
  then have "tariffRate (ps ! i) \<noteq> r"
    using assms findIndex_sameProduct(2) [OF Some] by simp
  then show ?thesis
    using Some by (simp add: allocateSpecific_def Let_def matchingProducts_update_other)
qed

lemma allocatedToRule_allocateSpecific:
  assumes "tariffRate mp = r" and "\<exists>p \<in> set ps. sameProduct mp p"
  shows "allocatedToRule r (allocateSpecific t b mp ps) =
         allocatedToRule r ps + (costAfterGeneralServices mp / b) * t"
proof (cases "findIndex (sameProduct mp) ps")
  case None
  then show ?thesis using assms(2) by (simp add: findIndex_None)
next
  case (Some i)
  have "allocatedToRule r
          (ps[i := (ps ! i)\<lparr> finalCost := finalCost (ps ! i) + (costAfterGeneralServices mp / b) * t,
                 allocatedSpecificCostSum :=
                   allocatedSpecificCostSum (ps ! i) + (costAfterGeneralServices mp / b) * t \<rparr>]) =
        allocatedToRule r ps + (costAfterGeneralServices mp / b) * t"
    using findIndex_sameProduct [OF Some] assms(1)
    by (intro allocatedToRule_update) simp_all
  then show ?thesis using Some by (simp add: allocateSpecific_def Let_def)
qed

lemma sameProduct_frame: "sameProduct mp (frame p) = sameProduct mp p"
  by (simp add: sameProduct_def)

lemma has_sameProduct_cong:
  assumes "map frame ps' = map frame ps" and "\<exists>p \<in> set ps. sameProduct mp p"
  shows "\<exists>p \<in> set ps'. sameProduct mp p"
proof -
  from assms(2) obtain p where "p \<in> set ps" "sameProduct mp p" by blast
  then have "frame p \<in> set (map frame ps')" using assms(1) by simp
  then obtain q where "q \<in> set ps'" "frame q = frame p" by auto
  then have "sameProduct mp q"
    using \<open>sameProduct mp p\<close> sameProduct_frame [of mp q] sameProduct_frame [of mp p] by simp
  then show ?thesis using \<open>q \<in> set ps'\<close> by blast
qed

lemma matchingProducts_fold_allocateSpecific_other:
  assumes "\<forall>mp \<in> set ms. tariffRate mp \<noteq> r"
  shows "matchingProducts r (fold (allocateSpecific t b) ms ps) = matchingProducts r ps"
  using assms
  by (induction ms arbitrary: ps) (simp_all add: matchingProducts_allocateSpecific_other)

lemma allocatedToRule_fold_allocateSpecific:
  assumes "\<forall>mp \<in> set ms. tariffRate mp = r \<and> (\<exists>p \<in> set ps. sameProduct mp p)"
  shows "allocatedToRule r (fold (allocateSpecific t b) ms ps) =
         allocatedToRule r ps + sum_list (map (\<lambda>mp. (costAfterGeneralServices mp / b) * t) ms)"
  using assms
proof (induction ms arbitrary: ps)
  case Nil
  then show ?case by simp
next
  case (Cons m ms)
  let ?ps = "allocateSpecific t b m ps"
  have frame: "map frame ?ps = map frame ps" by (rule map_frame_allocateSpecific)
  have "\<forall>mp \<in> set ms. tariffRate mp = r \<and> (\<exists>p \<in> set ?ps. sameProduct mp p)"
    using Cons.prems has_sameProduct_cong [OF frame] by simp
  then have "allocatedToRule r (fold (allocateSpecific t b) ms ?ps) =
             allocatedToRule r ?ps + sum_list (map (\<lambda>mp. (costAfterGeneralServices mp / b) * t) ms)"
    by (rule Cons.IH)
  moreover have "allocatedToRule r ?ps = allocatedToRule r ps + (costAfterGeneralServices m / b) * t"
    using Cons.prems by (intro allocatedToRule_allocateSpecific) simp_all
  ultimately show ?case by simp
qed

lemma matchingProducts_distributeRule_other:
  assumes "r' \<noteq> r"
  shows "matchingProducts r (distributeRule services r' ps) = matchingProducts r ps"
proof -
  have "\<forall>mp \<in> set (matchingProducts r' ps). tariffRate mp \<noteq> r"
    using assms by (simp add: matchingProducts_def)
  then show ?thesis
    by (simp add: distributeRule_def Let_def matchingProducts_fold_allocateSpecific_other)
qed

lemma allocatedToRule_distributeRule:
  assumes "0 < totalCostForThisRule services r" and "0 < totalBaseCost r ps"
  shows "allocatedToRule r (distributeRule services r ps) =
         allocatedToRule r ps + totalCostForThisRule services r"
proof -
  let ?t = "totalCostForThisRule services r" and ?b = "totalBaseCost r ps"
  let ?ms = "matchingProducts r ps"
  have ne: "?ms \<noteq> []"
    using assms(2) by (auto simp: totalBaseCost_def reduce_sum_sum_list)
  have "\<forall>mp \<in> set ?ms. tariffRate mp = r \<and> (\<exists>p \<in> set ps. sameProduct mp p)"
    by (auto simp: matchingProducts_def sameProduct_def)
  then have "allocatedToRule r (fold (allocateSpecific ?t ?b) ?ms ps) =
             allocatedToRule r ps + sum_list (map (\<lambda>mp. (costAfterGeneralServices mp / ?b) * ?t) ?ms)"
    by (rule allocatedToRule_fold_allocateSpecific)
  also have "sum_list (map (\<lambda>mp. (costAfterGeneralServices mp / ?b) * ?t) ?ms) = (?b / ?b) * ?t"
    by (simp only: sum_list_shares totalBaseCost_def reduce_sum_sum_list)
  also have "\<dots> = ?t" using assms(2) by simp
  finally show ?thesis
    using assms ne by (simp add: distributeRule_def Let_def)
qed

lemma matchingProducts_fold_distributeRule_other:
  assumes "r \<notin> set rs"
  shows "matchingProducts r (fold (distributeRule services) rs ps) = matchingProducts r ps"
  using assms
  by (induction rs arbitrary: ps) (auto simp: matchingProducts_distributeRule_other)

lemma allocatedToRule_fold_distributeRule:
  assumes "distinct rs" and "r \<in> set rs"
    and "0 < totalCostForThisRule services r" and "0 < totalBaseCost r ps"
  shows "allocatedToRule r (fold (distributeRule services) rs ps) =
         allocatedToRule r ps + totalCostForThisRule services r"
  using assms
proof (induction rs arbitrary: ps)
  case Nil
  then show ?case by simp
next
  case (Cons x rs)
  show ?case
  proof (cases "x = r")
    case True
    then have "r \<notin> set rs" using Cons.prems(1) by simp
    then have "allocatedToRule r (fold (distributeRule services) rs (distributeRule services r ps)) =
               allocatedToRule r (distributeRule services r ps)"
      by (simp add: allocatedToRule_def matchingProducts_fold_distributeRule_other)
    then show ?thesis
      using True Cons.prems by (simp add: allocatedToRule_distributeRule)
  next
    case False
    let ?ps = "distributeRule services x ps"
    have "totalBaseCost r ?ps = totalBaseCost r ps"
      by (rule totalBaseCost_cong) (rule map_frame_distributeRule)
    then have "allocatedToRule r (fold (distributeRule services) rs ?ps) =
               allocatedToRule r ?ps + totalCostForThisRule services r"
      using False Cons.prems by (intro Cons.IH) simp_all
    moreover have "allocatedToRule r ?ps = allocatedToRule r ps"
      using False by (simp add: allocatedToRule_def matchingProducts_distributeRule_other)
    ultimately show ?thesis by simp
  qed
qed

lemma untouched_fold_distributeRule:
  assumes "p \<in> set (fold (distributeRule services) rs ps)" and "tariffRate p \<notin> set rs"
  shows "p \<in> set ps"
proof -
  have "p \<in> set (matchingProducts (tariffRate p) (fold (distributeRule services) rs ps))"
    using assms(1) by (simp add: matchingProducts_def)
  then have "p \<in> set (matchingProducts (tariffRate p) ps)"
    using assms(2) by (simp add: matchingProducts_fold_distributeRule_other)
  then show ?thesis by (simp add: matchingProducts_def)
qed

lemma specific_zero_distributeComun:
  "\<forall>p \<in> set (distributeComun services (map initProcessed products)).
     allocatedSpecificCostSum p = 0"
  by (simp add: distributeComun_def Let_def allocateGeneral_def initProcessed_def)

lemma sum_list_split:
  fixes f :: "'a \<Rightarrow> rat"
  shows "sum_list (map f xs) =
         sum_list (map f (filter P xs)) + sum_list (map f (filter (\<lambda>x. \<not> P x) xs))"
  by (induction xs) simp_all

lemma sum_list_zero:
  fixes f :: "'a \<Rightarrow> rat"
  shows "\<forall>x \<in> set xs. f x = 0 \<Longrightarrow> sum_list (map f xs) = 0"
  by (induction xs) simp_all

subsection \<open>Orphan rules\<close>

lemma distributeRule_orphan:
  assumes "\<forall>p \<in> set ps. tariffRate p \<noteq> r"
  shows "distributeRule services r ps = ps"
proof -
  have "matchingProducts r ps = []"
    using assms by (simp add: matchingProducts_def)
  then show ?thesis by (simp add: distributeRule_def Let_def)
qed

lemma no_tariff_cong:
  assumes "map frame ps' = map frame ps" and "\<forall>p \<in> set ps. tariffRate p \<noteq> r"
  shows "\<forall>p \<in> set ps'. tariffRate p \<noteq> r"
proof -
  have "\<forall>q \<in> set ps. tariffRate (frame q) \<noteq> r" using assms(2) by simp
  with assms(1) have "\<forall>p \<in> set ps'. tariffRate (frame p) \<noteq> r"
    by (rule frame_determined)
  then show ?thesis by simp
qed

lemma fold_distributeRule_skip_orphan:
  assumes "\<forall>p \<in> set ps. tariffRate p \<noteq> r"
  shows "fold (distributeRule services) rs ps =
         fold (distributeRule services) (filter (\<lambda>x. x \<noteq> r) rs) ps"
  using assms
proof (induction rs arbitrary: ps)
  case Nil
  then show ?case by simp
next
  case (Cons x rs)
  show ?case
  proof (cases "x = r")
    case True
    then show ?thesis
      using Cons.IH [OF Cons.prems] Cons.prems by (simp add: distributeRule_orphan)
  next
    case False
    have "\<forall>p \<in> set (distributeRule services x ps). tariffRate p \<noteq> r"
      using map_frame_distributeRule Cons.prems by (rule no_tariff_cong)
    then show ?thesis using False Cons.IH by simp
  qed
qed

lemma totalCostForThisRule_remove:
  assumes "distributionRule s \<noteq> r"
  shows "totalCostForThisRule (xs @ s # ys) r = totalCostForThisRule (xs @ ys) r"
  using assms by (simp add: totalCostForThisRule_def servicesForThisRule_def)

lemma distributeRule_remove:
  assumes "distributionRule s \<noteq> r"
  shows "distributeRule (xs @ s # ys) r = distributeRule (xs @ ys) r"
  using assms by (simp add: distributeRule_def totalCostForThisRule_remove fun_eq_iff)

lemma fold_distributeRule_remove:
  assumes "distributionRule s \<notin> set rs"
  shows "fold (distributeRule (xs @ s # ys)) rs ps = fold (distributeRule (xs @ ys)) rs ps"
  using assms
proof (induction rs arbitrary: ps)
  case Nil
  then show ?case by simp
next
  case (Cons r rs)
  then have "distributeRule (xs @ s # ys) r = distributeRule (xs @ ys) r"
    by (intro distributeRule_remove) auto
  then show ?case using Cons by simp
qed

lemma specificTariffRules_remove:
  "filter (\<lambda>x. x \<noteq> distributionRule s) (specificTariffRules (xs @ s # ys)) =
   filter (\<lambda>x. x \<noteq> distributionRule s) (specificTariffRules (xs @ ys))"
  by (simp add: specificTariffRules_def filter_array_from_set filter_map comp_def)

lemma distributeComun_remove:
  assumes "\<not> isComun s"
  shows "distributeComun (xs @ s # ys) = distributeComun (xs @ ys)"
  using assms by (simp add: distributeComun_def totalComunServiceCost_def comunServices_def fun_eq_iff)

lemma calculateDistributedCosts_orphan:
  assumes "\<not> isComun s" and "\<forall>p \<in> set products. tariffRate p \<noteq> distributionRule s"
  shows "calculateDistributedCosts products (xs @ s # ys) =
         calculateDistributedCosts products (xs @ ys)"
proof -
  let ?r = "distributionRule s"
  let ?ps = "distributeComun (xs @ ys) (map initProcessed products)"
  let ?keep = "filter (\<lambda>x. x \<noteq> ?r)"
  have "map tariffRate ?ps = map tariffRate (map initProcessed products)"
    by (simp add: distributeComun_def Let_def allocateGeneral_def comp_def)
  then have "set (map tariffRate ?ps) = set (map tariffRate products)"
    by (simp add: initProcessed_def comp_def)
  then have orphan: "\<forall>p \<in> set ?ps. tariffRate p \<noteq> ?r"
    using assms(2) by (metis (no_types, lifting) image_eqI image_iff list.set_map)
  have "calculateDistributedCosts products (xs @ s # ys) =
        fold (distributeRule (xs @ s # ys)) (specificTariffRules (xs @ s # ys)) ?ps"
    using assms(1) by (simp add: calculateDistributedCosts_def distributeComun_remove)
  also have "\<dots> = fold (distributeRule (xs @ s # ys)) (?keep (specificTariffRules (xs @ s # ys))) ?ps"
    using orphan by (rule fold_distributeRule_skip_orphan)
  also have "\<dots> = fold (distributeRule (xs @ s # ys)) (?keep (specificTariffRules (xs @ ys))) ?ps"
    by (simp only: specificTariffRules_remove)
  also have "\<dots> = fold (distributeRule (xs @ ys)) (?keep (specificTariffRules (xs @ ys))) ?ps"
    by (rule fold_distributeRule_remove) simp
  also have "\<dots> = fold (distributeRule (xs @ ys)) (specificTariffRules (xs @ ys)) ?ps"
    using orphan by (rule fold_distributeRule_skip_orphan [symmetric])
  finally show ?thesis by (simp add: calculateDistributedCosts_def)
qed

section \<open>Step 2 does not depend on the general pool\<close>


















section \<open>Further facts about the allocator\<close>

lemma Product_input_fields:
  "\<lparr> name = name p, unitCost = unitCost p, quantity = quantity p, tariffRate = tariffRate p \<rparr> =
   (p :: Product)"
  by (cases p) simp

subsection \<open>Products that occur once\<close>

text \<open>
  When no two products of the array agree in name, tariff rate, unit cost and quantity,
  \<open>findIndex\<close> finds the matching product itself, and every product of a rule receives
  its own share.
\<close>

lemma sameProduct_inputOf: "sameProduct mp p \<longleftrightarrow> inputOf p = inputOf mp"
  by (auto simp: sameProduct_def inputOf_def)

lemma inputOf_addSpecific [simp]: "inputOf (addSpecific a p) = inputOf p"
  by (simp add: inputOf_def addSpecific_def)

lemma inputOf_frame: "inputOf (frame p) = inputOf p"
  by (simp add: inputOf_def)

lemma allocateSpecific_Cons:
  "allocateSpecific t b mp (x # xs) =
     (if sameProduct mp x then addSpecific ((costAfterGeneralServices mp / b) * t) x # xs
      else x # allocateSpecific t b mp xs)"
  by (cases "findIndex (sameProduct mp) xs")
     (simp_all add: allocateSpecific_def addSpecific_def Let_def)

lemma allocateSpecific_absent:
  "\<forall>p \<in> set ps. inputOf p \<noteq> inputOf mp \<Longrightarrow> allocateSpecific t b mp ps = ps"
  by (induction ps) (simp_all add: allocateSpecific_Cons sameProduct_inputOf, simp add: allocateSpecific_def)


lemma allocateSpecific_distinct:
  assumes "distinct (map inputOf ps)"
  shows "allocateSpecific t b mp ps =
         map (\<lambda>p. if inputOf p = inputOf mp
                   then addSpecific ((costAfterGeneralServices mp / b) * t) p else p) ps"
  using assms
proof (induction ps)
  case Nil
  then show ?case by (simp add: allocateSpecific_def)
next
  case (Cons x xs)
  show ?case
  proof (cases "inputOf x = inputOf mp")
    case True
    then have "inputOf mp \<notin> inputOf ` set xs"
      using Cons.prems by simp
    then have "\<forall>p \<in> set xs. inputOf p \<noteq> inputOf mp"
      by (metis imageI)
    then have "map (\<lambda>p. if inputOf p = inputOf mp
                   then addSpecific ((costAfterGeneralServices mp / b) * t) p else p) xs = xs"
      by (simp add: map_idI)
    then show ?thesis
      using True by (simp add: allocateSpecific_Cons sameProduct_inputOf)
  next
    case False
    then show ?thesis
      using Cons by (simp add: allocateSpecific_Cons sameProduct_inputOf)
  qed
qed

lemma filter_same_distinct:
  assumes "distinct (map f xs)" and "x \<in> set xs"
  shows "filter (\<lambda>y. f y = f x) xs = [x]"
  using assms
proof (induction xs)
  case Nil
  then show ?case by simp
next
  case (Cons y ys)
  show ?case
  proof (cases "x = y")
    case True
    then have "f x \<notin> f ` set ys" using Cons.prems(1) by simp
    then have "\<forall>z \<in> set ys. f z \<noteq> f x" by (metis imageI)
    then have "filter (\<lambda>y. f y = f x) ys = []" by (simp add: filter_empty_conv)
    then show ?thesis using True by simp
  next
    case False
    then have "x \<in> set ys" using Cons.prems(2) by simp
    moreover have "f y \<notin> f ` set ys" using Cons.prems(1) by simp
    ultimately have "f y \<noteq> f x" by (metis imageI)
    then show ?thesis using Cons.IH Cons.prems(1) \<open>x \<in> set ys\<close> by simp
  qed
qed

lemma addSpecific_addSpecific: "addSpecific a (addSpecific b p) = addSpecific (b + a) p"
  by (simp add: addSpecific_def add.assoc)

lemma addSpecific_zero: "addSpecific 0 p = p"
  by (simp add: addSpecific_def)

text \<open>The shares that a list of matching products sends to the product \<open>p\<close>.\<close>

lemma fold_allocateSpecific_distinct:
  assumes "distinct (map inputOf ps)"
  shows "fold (allocateSpecific t b) ms ps =
         map (\<lambda>p. addSpecific
                (sum_list (map (\<lambda>mp. (costAfterGeneralServices mp / b) * t)
                   (filter (\<lambda>mp. inputOf mp = inputOf p) ms))) p) ps"
  using assms
proof (induction ms arbitrary: ps)
  case Nil
  then show ?case by (simp add: addSpecific_zero)
next
  case (Cons m ms)
  let ?share = "\<lambda>mp. (costAfterGeneralServices mp / b) * t"
  let ?sent = "\<lambda>ms p. sum_list (map ?share (filter (\<lambda>mp. inputOf mp = inputOf p) ms))"
  let ?first = "\<lambda>p. if inputOf p = inputOf m then addSpecific (?share m) p else p"
  let ?ps = "allocateSpecific t b m ps"
  have step: "?ps = map ?first ps"
    using Cons.prems by (rule allocateSpecific_distinct)
  have "map inputOf ?ps = map inputOf ps"
    unfolding step by (simp add: comp_def)
  then have "distinct (map inputOf ?ps)" using Cons.prems by simp
  then have rest: "fold (allocateSpecific t b) ms ?ps = map (\<lambda>p. addSpecific (?sent ms p) p) ?ps"
    by (rule Cons.IH)
  have both: "addSpecific (?sent ms (?first p)) (?first p) = addSpecific (?sent (m # ms) p) p" for p
  proof (cases "inputOf p = inputOf m")
    case True
    then have first: "?first p = addSpecific (?share m) p" by simp
    have "?sent (m # ms) p = ?share m + ?sent ms p" using True by simp
    then have "addSpecific (?sent (m # ms) p) p =
               addSpecific (?sent ms p) (addSpecific (?share m) p)"
      by (simp only: addSpecific_addSpecific)
    also have "\<dots> = addSpecific (?sent ms (addSpecific (?share m) p)) (addSpecific (?share m) p)"
      by (simp only: inputOf_addSpecific)
    finally show ?thesis by (simp only: first)
  next
    case False
    then have "?first p = p" by simp
    moreover have "?sent (m # ms) p = ?sent ms p" using False by auto
    ultimately show ?thesis by (simp only:)
  qed
  have "fold (allocateSpecific t b) (m # ms) ps = fold (allocateSpecific t b) ms ?ps"
    by simp
  also have "\<dots> = map (\<lambda>p. addSpecific (?sent ms (?first p)) (?first p)) ps"
    unfolding rest unfolding step by (simp only: map_map comp_def)
  also have "\<dots> = map (\<lambda>p. addSpecific (?sent (m # ms) p) p) ps"
    by (simp only: both)
  finally show ?case .
qed

lemma distributeRule_distinct:
  assumes "distinct (map inputOf ps)"
    and "0 < totalCostForThisRule services r" and "0 < totalBaseCost r ps"
  shows "distributeRule services r ps =
         map (\<lambda>p. if tariffRate p = r
                   then addSpecific ((costAfterGeneralServices p / totalBaseCost r ps) *
                          totalCostForThisRule services r) p
                   else p) ps"
proof -
  let ?t = "totalCostForThisRule services r" and ?b = "totalBaseCost r ps"
  let ?ms = "matchingProducts r ps"
  let ?share = "\<lambda>mp. (costAfterGeneralServices mp / ?b) * ?t"
  have ne: "?ms \<noteq> []"
    using assms(3) by (auto simp: totalBaseCost_def reduce_sum_sum_list)
  have "addSpecific (sum_list (map ?share (filter (\<lambda>mp. inputOf mp = inputOf p) ?ms))) p =
        (if tariffRate p = r then addSpecific (?share p) p else p)"
    if p: "p \<in> set ps" for p
  proof (cases "tariffRate p = r")
    case True
    have "filter (\<lambda>mp. inputOf mp = inputOf p) ?ms =
          filter (\<lambda>q. tariffRate q = r) (filter (\<lambda>mp. inputOf mp = inputOf p) ps)"
      by (auto simp: matchingProducts_def intro: filter_cong)
    also have "\<dots> = filter (\<lambda>q. tariffRate q = r) [p]"
      using assms(1) p by (simp only: filter_same_distinct)
    finally show ?thesis using True by simp
  next
    case False
    have "filter (\<lambda>mp. inputOf mp = inputOf p) ?ms = []"
      using False by (auto simp: matchingProducts_def filter_empty_conv inputOf_def)
    then show ?thesis using False by (simp add: addSpecific_zero)
  qed
  then have "map (\<lambda>p. addSpecific
                (sum_list (map ?share (filter (\<lambda>mp. inputOf mp = inputOf p) ?ms))) p) ps =
             map (\<lambda>p. if tariffRate p = r then addSpecific (?share p) p else p) ps"
    by (simp cong: map_cong)
  then show ?thesis
    using assms ne
    by (simp add: distributeRule_def Let_def fold_allocateSpecific_distinct)
qed


lemma inputOf_distributeComun:
  "map inputOf (distributeComun services (map initProcessed products)) = products"
proof -
  have "map inputOf (distributeComun services (map initProcessed products)) =
        map inputOf (map initProcessed products)"
    by (simp add: distributeComun_def Let_def allocateGeneral_def inputOf_def comp_def)
  also have "\<dots> = products"
    by (simp add: initProcessed_def inputOf_def comp_def Product_input_fields)
  finally show ?thesis .
qed

lemma specific_share_distinct:
  assumes "distinct products"
    and "r \<in> set (specificTariffRules services)"
    and "0 < totalCostForThisRule services r"
    and "0 < totalBaseCost r (calculateDistributedCosts products services)"
    and "p \<in> set (calculateDistributedCosts products services)"
    and "tariffRate p = r"
  shows "allocatedSpecificCostSum p =
           (costAfterGeneralServices p /
              totalBaseCost r (calculateDistributedCosts products services)) *
             totalCostForThisRule services r"
proof -
  let ?out = "calculateDistributedCosts products services"
  let ?ps1 = "distributeComun services (map initProcessed products)"
  let ?t = "totalCostForThisRule services r"
  have "distinct (specificTariffRules services)"
    by (simp add: specificTariffRules_def distinct_array_from_set)
  moreover obtain bs cs where rules: "specificTariffRules services = bs @ r # cs"
    using assms(2) by (auto dest: split_list)
  ultimately have bs: "r \<notin> set bs" and cs: "r \<notin> set cs" by simp_all
  define ps2 where "ps2 = fold (distributeRule services) bs ?ps1"
  define ps3 where "ps3 = distributeRule services r ps2"
  have out: "?out = fold (distributeRule services) cs ps3"
    by (simp add: calculateDistributedCosts_def rules ps2_def ps3_def)
  have frame2: "map frame ps2 = map frame ?ps1"
    unfolding ps2_def by (rule map_frame_fold_distributeRule)
  have "map frame ?out = map frame ?ps1"
    by (rule map_frame_calculateDistributedCosts)
  then have "totalBaseCost r ?out = totalBaseCost r ps2"
    using frame2 by (simp add: totalBaseCost_frame)
  then have base: "0 < totalBaseCost r ps2" and base_eq: "totalBaseCost r ps2 = totalBaseCost r ?out"
    using assms(4) by simp_all
  have "map inputOf ps2 = map inputOf ?ps1"
    using frame2 by (rule map_frame_cong [where g = inputOf]) (simp add: inputOf_frame)
  then have "distinct (map inputOf ps2)"
    using assms(1) by (simp add: inputOf_distributeComun)
  then have ps3: "ps3 = map (\<lambda>q. if tariffRate q = r
                   then addSpecific ((costAfterGeneralServices q / totalBaseCost r ps2) * ?t) q
                   else q) ps2"
    unfolding ps3_def using assms(3) base by (rule distributeRule_distinct)
  have "p \<in> set (matchingProducts r ?out)"
    using assms(5,6) by (simp add: matchingProducts_def)
  then have "p \<in> set (matchingProducts r ps3)"
    using cs by (simp add: out matchingProducts_fold_distributeRule_other)
  then have "p \<in> set ps3" by (simp add: matchingProducts_def)
  then obtain q where q: "q \<in> set ps2"
    and p: "p = (if tariffRate q = r
                 then addSpecific ((costAfterGeneralServices q / totalBaseCost r ps2) * ?t) q
                 else q)"
    unfolding ps3 by auto
  have "tariffRate p = tariffRate q"
    using p by (simp add: addSpecific_def split: if_splits)
  then have rate: "tariffRate q = r" using assms(6) by simp
  then have p': "p = addSpecific ((costAfterGeneralServices q / totalBaseCost r ps2) * ?t) q"
    using p by simp
  have "q \<in> set (matchingProducts r ps2)"
    using q rate by (simp add: matchingProducts_def)
  then have "q \<in> set (matchingProducts r ?ps1)"
    using bs by (simp add: ps2_def matchingProducts_fold_distributeRule_other)
  then have "q \<in> set ?ps1" by (simp add: matchingProducts_def)
  then have "allocatedSpecificCostSum q = 0"
    using specific_zero_distributeComun by blast
  then show ?thesis
    unfolding p' by (simp add: addSpecific_def base_eq)
qed

lemma allocatedToRule_distributeComun:
  "allocatedToRule r (distributeComun services (map initProcessed products)) = 0"
proof -
  have "\<forall>p \<in> set (matchingProducts r (distributeComun services (map initProcessed products))).
          allocatedSpecificCostSum p = 0"
    using specific_zero_distributeComun [of services products]
    by (simp add: matchingProducts_def)
  then show ?thesis
    unfolding allocatedToRule_def by (rule sum_list_zero)
qed






section \<open>The line number of a parse error\<close>

lemma mapLines_Inl:
  "mapLines f i ls = Inl e \<Longrightarrow> \<exists>k < length ls. f (ls ! k) (i + k) = Inl e"
proof (induction ls arbitrary: i)
  case Nil
  then show ?case by simp
next
  case (Cons l ls)
  show ?case
  proof (cases "f l i")
    case (Inl e')
    then have "f ((l # ls) ! 0) (i + 0) = Inl e" using Cons.prems by simp
    then show ?thesis by blast
  next
    case (Inr x)
    then have "mapLines f (i + 1) ls = Inl e"
      using Cons.prems by (simp split: sum.splits)
    then obtain k where "k < length ls" "f (ls ! k) (i + 1 + k) = Inl e"
      using Cons.IH by blast
    then have "Suc k < length (l # ls)" "f ((l # ls) ! Suc k) (i + Suc k) = Inl e"
      by simp_all
    then show ?thesis by blast
  qed
qed

lemma parseProductLine_reportedLine:
  "parseProductLine pf pn l i = Inl e \<Longrightarrow> reportedLine e = i + 1"
  by (auto simp: parseProductLine_def Let_def split: if_splits option.splits)

lemma parseServiceLine_reportedLine:
  "parseServiceLine pf l i = Inl e \<Longrightarrow> reportedLine e = i + 1"
  by (auto simp: parseServiceLine_def Let_def split: if_splits option.splits)

lemma parseProductsFile_reportedLine:
  assumes "parseProductsFile pf pn content = Inl e"
  shows "0 < reportedLine e \<and> reportedLine e \<le> length (nonBlankLines content) \<and>
         parseProductLine pf pn (nonBlankLines content ! (reportedLine e - 1)) (reportedLine e - 1) = Inl e"
proof -
  obtain k where k: "k < length (nonBlankLines content)"
    and e: "parseProductLine pf pn (nonBlankLines content ! k) (0 + k) = Inl e"
    using assms mapLines_Inl unfolding parseProductsFile_def by blast
  then have "reportedLine e = k + 1" by (simp add: parseProductLine_reportedLine)
  then show ?thesis using k e by simp
qed

lemma parseServicesFile_reportedLine:
  assumes "parseServicesFile pf content = Inl e"
  shows "0 < reportedLine e \<and> reportedLine e \<le> length (nonBlankLines content) \<and>
         parseServiceLine pf (nonBlankLines content ! (reportedLine e - 1)) (reportedLine e - 1) = Inl e"
proof -
  obtain k where k: "k < length (nonBlankLines content)"
    and e: "parseServiceLine pf (nonBlankLines content ! k) (0 + k) = Inl e"
    using assms mapLines_Inl unfolding parseServicesFile_def by blast
  then have "reportedLine e = k + 1" by (simp add: parseServiceLine_reportedLine)
  then show ?thesis using k e by simp
qed

section \<open>The properties of the specification\<close>

text \<open>The definitions that evaluate the allocator on a concrete input.\<close>

lemmas allocator_defs =
  calculateDistributedCosts_def distributeRule_def distributeComun_def specificTariffRules_def
  array_from_set_def set_add_def isComun_def toLowerCase_def toLowerCaseChar_def
  totalComunServiceCost_def comunServices_def reduce_sum_def totalInitialProductValue_def initProcessed_def
  allocateGeneral_def totalCostForThisRule_def servicesForThisRule_def matchingProducts_def totalBaseCost_def
  allocateSpecific_def sameProduct_def

text \<open>
  Claim C1. When the total of the general ("comun") services and the total initial value of
  the products are both positive, every product of the result carries the general
  allocation \<open>(initialCost / totalInitialValue) * totalGeneralCost\<close>, and these
  allocations add up to the total general cost exactly. The two totals are the sum of the
  costs of the services marked general and the sum of \<open>unitCost * quantity\<close> over the
  products.
\<close>

theorem general_allocation_proportional:
  assumes "0 < totalComunServiceCost services"
    and "0 < totalInitialProductValue (map initProcessed products)"
  shows "(\<forall>p \<in> set (calculateDistributedCosts products services).
            allocatedGeneralCostSum p =
              (initialCost p / totalInitialProductValue (map initProcessed products)) *
                totalComunServiceCost services) \<and>
         sum_list (map allocatedGeneralCostSum (calculateDistributedCosts products services)) =
           totalComunServiceCost services \<and>
         totalComunServiceCost services = sum_list (map cost (filter isComun services)) \<and>
         totalInitialProductValue (map initProcessed products) =
           sum_list (map (\<lambda>p. unitCost p * quantity p) products)"
proof -
  let ?G = "totalComunServiceCost services"
  let ?T = "totalInitialProductValue (map initProcessed products)"
  let ?out = "calculateDistributedCosts products services"
  let ?ps1 = "distributeComun services (map initProcessed products)"
  have ps1: "?ps1 = map (\<lambda>p. allocateGeneral ?T ?G (initProcessed p)) products"
    using assms by (rule distributeComun_positive)
  have frame: "map frame ?out = map frame ?ps1"
    by (rule map_frame_calculateDistributedCosts)
  have "\<forall>q \<in> set ?ps1. allocatedGeneralCostSum (frame q) = (initialCost (frame q) / ?T) * ?G"
    unfolding ps1 by (simp add: allocateGeneral_def Let_def initProcessed_def)
  with frame have "\<forall>p \<in> set ?out. allocatedGeneralCostSum (frame p) = (initialCost (frame p) / ?T) * ?G"
    by (rule frame_determined)
  then have each: "\<forall>p \<in> set ?out. allocatedGeneralCostSum p = (initialCost p / ?T) * ?G"
    by simp
  have "map allocatedGeneralCostSum ?out = map allocatedGeneralCostSum ?ps1"
    using frame by (rule map_frame_cong [where g = allocatedGeneralCostSum]) simp
  also have "\<dots> = map (\<lambda>p. (initialCost p / ?T) * ?G) (map initProcessed products)"
    unfolding ps1 by (simp add: allocateGeneral_def Let_def initProcessed_def)
  finally have "sum_list (map allocatedGeneralCostSum ?out) =
                (sum_list (map initialCost (map initProcessed products)) / ?T) * ?G"
    by (simp only: sum_list_shares)
  also have "\<dots> = (?T / ?T) * ?G"
    by (simp only: totalInitialProductValue_def reduce_sum_sum_list)
  also have "\<dots> = ?G" using assms(2) by simp
  finally have total: "sum_list (map allocatedGeneralCostSum ?out) = ?G" .
  have "?G = sum_list (map cost (filter isComun services))"
    by (simp add: totalComunServiceCost_def comunServices_def reduce_sum_sum_list)
  with each total show ?thesis
    by (simp only: totalInitialProductValue_init simp_thms)
qed

theorem general_allocation_proportional_witness:
  "0 < totalComunServiceCost [freight, taxT1] \<and>
   0 < totalInitialProductValue (map initProcessed [productA, productB]) \<and>
   map allocatedGeneralCostSum (calculateDistributedCosts [productA, productB] [freight, taxT1]) =
     [10, 30] \<and>
   sum_list (map allocatedGeneralCostSum
     (calculateDistributedCosts [productA, productB] [freight, taxT1])) = 40"
proof -
  have g: "0 < totalComunServiceCost [freight, taxT1]"
    by (simp add: allocator_defs)
  have t: "0 < totalInitialProductValue (map initProcessed [productA, productB])"
    by (simp add: allocator_defs)
  have "totalComunServiceCost [freight, taxT1] = 40"
    by (simp add: allocator_defs)
  moreover have "map allocatedGeneralCostSum
      (calculateDistributedCosts [productA, productB] [freight, taxT1]) = [10, 30]"
    by (simp add: allocator_defs)
  ultimately show ?thesis
    using g t general_allocation_proportional [OF g t] by simp
qed

text \<open>
  Claim C2. Each product that matches a rule is to receive the share
  \<open>(costAfterGeneralServices / totalBase) * totalCostForRule\<close>, also when several matching
  products have the same name, unit cost, quantity and tariff rate. The allocator looks the
  product up again by these four fields and takes the first that agrees, so for two equal
  products (base 100 each, rule cost 30) the first receives both shares, 30, and the second
  none, where the claim gives 15 to each. For a product list without repetition every
  matching product receives its share (\<open>specific_share_distinct\<close>).
\<close>

theorem duplicate_products_share:
  "map costAfterGeneralServices (calculateDistributedCosts [productA, productA] [taxT1]) =
     [100, 100] \<and>
   totalBaseCost ''T1'' (calculateDistributedCosts [productA, productA] [taxT1]) = 200 \<and>
   totalCostForThisRule [taxT1] ''T1'' = 30 \<and>
   map (\<lambda>p. (costAfterGeneralServices p /
               totalBaseCost ''T1'' (calculateDistributedCosts [productA, productA] [taxT1])) *
             totalCostForThisRule [taxT1] ''T1'')
     (calculateDistributedCosts [productA, productA] [taxT1]) = [15, 15] \<and>
   map allocatedSpecificCostSum (calculateDistributedCosts [productA, productA] [taxT1]) =
     [30, 0] \<and>
   map finalCost (calculateDistributedCosts [productA, productA] [taxT1]) = [130, 100]"
  by (simp add: allocator_defs)



text \<open>
  Claim C4. For a specific rule \<open>r\<close> whose services cost more than zero in total and
  whose matching products have a positive total of \<open>costAfterGeneralServices\<close>, the
  specific allocations held by the products whose \<open>tariffRate\<close> is \<open>r\<close> add up to the
  total cost of the rule exactly. Only rule \<open>r\<close> allocates to these products, so the sum is
  the contribution of \<open>r\<close>. When \<open>r\<close> is the only specific rule, the specific allocations
  of all products of the result add up to the total cost of the rule. The last part is the
  step of rule \<open>r\<close> by itself: from any array with a positive base for \<open>r\<close>, it adds the
  total cost of the rule to what the products of \<open>r\<close> hold.
\<close>

theorem rule_cost_conserved:
  assumes "r \<in> set (specificTariffRules services)"
    and "0 < totalCostForThisRule services r"
    and "0 < totalBaseCost r (calculateDistributedCosts products services)"
  shows "sum_list (map allocatedSpecificCostSum
           (matchingProducts r (calculateDistributedCosts products services))) =
           totalCostForThisRule services r \<and>
         (specificTariffRules services = [r] \<longrightarrow>
            sum_list (map allocatedSpecificCostSum (calculateDistributedCosts products services)) =
              totalCostForThisRule services r) \<and>
         (\<forall>ps. 0 < totalBaseCost r ps \<longrightarrow>
            sum_list (map allocatedSpecificCostSum (matchingProducts r (distributeRule services r ps))) =
              sum_list (map allocatedSpecificCostSum (matchingProducts r ps)) +
                totalCostForThisRule services r)"
proof -
  let ?out = "calculateDistributedCosts products services"
  let ?ps1 = "distributeComun services (map initProcessed products)"
  let ?rules = "specificTariffRules services"
  have out: "?out = fold (distributeRule services) ?rules ?ps1"
    by (simp add: calculateDistributedCosts_def)
  have "totalBaseCost r ?out = totalBaseCost r ?ps1"
    by (rule totalBaseCost_cong) (rule map_frame_calculateDistributedCosts)
  then have base: "0 < totalBaseCost r ?ps1" using assms(3) by simp
  have "distinct ?rules"
    by (simp add: specificTariffRules_def distinct_array_from_set)
  then have "allocatedToRule r (fold (distributeRule services) ?rules ?ps1) =
             allocatedToRule r ?ps1 + totalCostForThisRule services r"
    using assms(1,2) base by (rule allocatedToRule_fold_distributeRule)
  then have matching: "allocatedToRule r ?out = totalCostForThisRule services r"
    by (simp add: out allocatedToRule_distributeComun)
  have "sum_list (map allocatedSpecificCostSum ?out) = totalCostForThisRule services r"
    if only: "?rules = [r]"
  proof -
    have "\<forall>p \<in> set (filter (\<lambda>p. tariffRate p \<noteq> r) ?out). allocatedSpecificCostSum p = 0"
    proof
      fix p assume "p \<in> set (filter (\<lambda>p. tariffRate p \<noteq> r) ?out)"
      then have "p \<in> set (fold (distributeRule services) ?rules ?ps1)" "tariffRate p \<notin> set ?rules"
        using only by (simp_all add: out)
      then have "p \<in> set ?ps1" by (rule untouched_fold_distributeRule)
      then show "allocatedSpecificCostSum p = 0"
        using specific_zero_distributeComun by blast
    qed
    then have "sum_list (map allocatedSpecificCostSum (filter (\<lambda>p. tariffRate p \<noteq> r) ?out)) = 0"
      by (rule sum_list_zero)
    moreover have "sum_list (map allocatedSpecificCostSum ?out) =
        sum_list (map allocatedSpecificCostSum (filter (\<lambda>p. tariffRate p = r) ?out)) +
        sum_list (map allocatedSpecificCostSum (filter (\<lambda>p. tariffRate p \<noteq> r) ?out))"
      by (rule sum_list_split)
    ultimately show ?thesis
      using matching by (simp add: allocatedToRule_def matchingProducts_def)
  qed
  moreover have "\<forall>ps. 0 < totalBaseCost r ps \<longrightarrow>
      allocatedToRule r (distributeRule services r ps) =
        allocatedToRule r ps + totalCostForThisRule services r"
    using assms(2) by (simp add: allocatedToRule_distributeRule)
  ultimately show ?thesis
    using matching by (simp add: allocatedToRule_def)
qed

theorem rule_cost_conserved_witness:
  "''T1'' \<in> set (specificTariffRules [freight, taxT1]) \<and>
   0 < totalCostForThisRule [freight, taxT1] ''T1'' \<and>
   0 < totalBaseCost ''T1'' (calculateDistributedCosts [productA, productB, productA] [freight, taxT1]) \<and>
   specificTariffRules [freight, taxT1] = [''T1''] \<and>
   totalCostForThisRule [freight, taxT1] ''T1'' = 30 \<and>
   sum_list (map allocatedSpecificCostSum
     (matchingProducts ''T1''
        (calculateDistributedCosts [productA, productB, productA] [freight, taxT1]))) = 30 \<and>
   sum_list (map allocatedSpecificCostSum
     (calculateDistributedCosts [productA, productB, productA] [freight, taxT1])) = 30"
proof -
  have rule: "''T1'' \<in> set (specificTariffRules [freight, taxT1])"
    by (simp add: allocator_defs)
  have cost: "0 < totalCostForThisRule [freight, taxT1] ''T1''"
    by (simp add: allocator_defs)
  have base: "0 < totalBaseCost ''T1''
      (calculateDistributedCosts [productA, productB, productA] [freight, taxT1])"
    by (simp add: allocator_defs)
  have only: "specificTariffRules [freight, taxT1] = [''T1'']"
    by (simp add: allocator_defs)
  have total: "totalCostForThisRule [freight, taxT1] ''T1'' = 30"
    by (simp add: allocator_defs)
  show ?thesis
    using rule cost base only total rule_cost_conserved [OF rule cost base] by simp
qed



text \<open>
  Claim C6. When the total cost of the services marked general is zero, the allocator
  returns a result for every product (it has no failing branch), and every product of the
  result has \<open>allocatedGeneralCostSum = 0\<close> and
  \<open>costAfterGeneralServices = initialCost\<close>: nothing is distributed in place of the
  general pool.
\<close>

theorem no_general_cost:
  assumes "totalComunServiceCost services = 0"
  shows "length (calculateDistributedCosts products services) = length products \<and>
         (\<forall>p \<in> set (calculateDistributedCosts products services).
            allocatedGeneralCostSum p = 0 \<and> costAfterGeneralServices p = initialCost p)"
proof -
  let ?out = "calculateDistributedCosts products services"
  let ?ps1 = "distributeComun services (map initProcessed products)"
  have ps1: "?ps1 = map initProcessed products"
    using assms by (simp add: distributeComun_def)
  have frame: "map frame ?out = map frame ?ps1"
    by (rule map_frame_calculateDistributedCosts)
  have "\<forall>q \<in> set ?ps1. allocatedGeneralCostSum (frame q) = 0 \<and>
          costAfterGeneralServices (frame q) = initialCost (frame q)"
    unfolding ps1 by (simp add: initProcessed_def)
  with frame have "\<forall>p \<in> set ?out. allocatedGeneralCostSum (frame p) = 0 \<and>
          costAfterGeneralServices (frame p) = initialCost (frame p)"
    by (rule frame_determined)
  moreover have "length (map frame ?out) = length (map frame ?ps1)"
    using frame by simp
  ultimately show ?thesis by (simp add: ps1)
qed

theorem no_general_cost_witness:
  "totalComunServiceCost [taxT1, feeT9] = 0 \<and>
   map allocatedGeneralCostSum (calculateDistributedCosts [productA, productB] [taxT1, feeT9]) =
     [0, 0] \<and>
   map costAfterGeneralServices (calculateDistributedCosts [productA, productB] [taxT1, feeT9]) =
     [100, 300]"
proof -
  have zero: "totalComunServiceCost [taxT1, feeT9] = 0"
    by (simp add: allocator_defs)
  have "map initialCost (calculateDistributedCosts [productA, productB] [taxT1, feeT9]) =
        [100, 300]"
    by (simp add: allocator_defs)
  then show ?thesis
    using zero no_general_cost [OF zero, of "[productA, productB]"]
    by (auto simp: length_Suc_conv)
qed

text \<open>
  Claim C7. A service whose \<open>distributionRule\<close> is not the general marker and is the
  \<open>tariffRate\<close> of no product is an orphan. The allocator has no failing branch, and for
  an input with an orphan service (at any place of the service list) it returns the same
  list of processed products as for the input without that service.
\<close>

theorem orphan_service_ignored:
  assumes "\<not> isComun s"
    and "\<forall>p \<in> set products. tariffRate p \<noteq> distributionRule s"
  shows "calculateDistributedCosts products (xs @ s # ys) =
         calculateDistributedCosts products (xs @ ys)"
  using assms by (rule calculateDistributedCosts_orphan)

theorem orphan_service_ignored_witness:
  "\<not> isComun feeT9 \<and>
   calculateDistributedCosts [productA, productB] [freight, feeT9, taxT1] =
   calculateDistributedCosts [productA, productB] [freight, taxT1] \<and>
   map finalCost (calculateDistributedCosts [productA, productB] [freight, feeT9, taxT1]) =
     [140, 330]"
proof -
  have rule: "\<not> isComun feeT9"
    by (simp add: allocator_defs)
  have orphan: "\<forall>p \<in> set [productA, productB]. tariffRate p \<noteq> distributionRule feeT9"
    by simp
  have "map finalCost (calculateDistributedCosts [productA, productB] [freight, taxT1]) =
        [140, 330]"
    by (simp add: allocator_defs)
  then show ?thesis
    using rule orphan_service_ignored [OF rule orphan, of "[freight]" "[taxT1]"] by simp
qed

text \<open>
  Claim C8. A malformed line is to be reported with its line number in the file text,
  blank lines counted. The parsers number the lines after the blank ones are removed: in a
  text whose first line is blank and whose second line has three fields, both parsers
  report line 1. By \<open>parseProductsFile_reportedLine\<close> and
  \<open>parseServicesFile_reportedLine\<close> the number reported is always the place of the line
  among the lines that are not blank.
\<close>

theorem error_line_after_blank_line:
  "split_str (CHR 0x0A) (CHR 0x0A # ''B,5,R1'') = ['''', ''B,5,R1''] \<and>
   parseProductsFile pf pn (CHR 0x0A # ''B,5,R1'') = Inl (ProductFieldCount 1 ''B,5,R1'') \<and>
   parseServicesFile pf (CHR 0x0A # ''B,5,R1'') = Inl (ServiceFieldCount 1 ''B,5,R1'')"
  by (simp add: parseProductsFile_def parseServicesFile_def nonBlankLines_def split_str_def
      trim_def isWhiteSpace_def parseProductLine_def parseServiceLine_def)

text \<open>
  Claim C9. The result has one processed product for each input product, in the same
  order, and the \<open>name\<close>, \<open>unitCost\<close>, \<open>quantity\<close> and \<open>tariffRate\<close> of the
  i-th processed product are those of the i-th input product. The allocator is a function
  of its two arguments: the input lists are values and are not changed.
\<close>

theorem input_fields_preserved:
  "length (calculateDistributedCosts products services) = length products \<and>
   map (\<lambda>p. \<lparr> name = name p, unitCost = unitCost p, quantity = quantity p,
                tariffRate = tariffRate p \<rparr>)
     (calculateDistributedCosts products services) = products"
proof -
  let ?out = "calculateDistributedCosts products services"
  let ?ps1 = "distributeComun services (map initProcessed products)"
  let ?input = "\<lambda>p. \<lparr> name = name p, unitCost = unitCost p, quantity = quantity p,
                tariffRate = tariffRate p \<rparr>"
  have "map frame ?out = map frame ?ps1"
    by (rule map_frame_calculateDistributedCosts)
  then have "map ?input ?out = map ?input ?ps1"
    by (rule map_frame_cong [where g = ?input]) simp
  also have "\<dots> = map ?input (map initProcessed products)"
    by (simp add: distributeComun_def Let_def allocateGeneral_def comp_def)
  also have "\<dots> = products"
    by (simp add: initProcessed_def comp_def Product_input_fields)
  finally have fields: "map ?input ?out = products" .
  have "length ?out = length (map ?input ?out)" by simp
  also have "\<dots> = length products" by (simp only: fields)
  finally show ?thesis using fields by simp
qed



end
